theory Spec2Isabelle
  imports Main "HOL-Library.Char_ord"
begin

section \<open>The client-side rate limiter (src/lib/rateLimitUtils.ts)\<close>

text \<open>
  The TypeScript interface \<^verbatim>\<open>RateLimitData\<close>. Timestamps are values of
  \<^verbatim>\<open>Date.now()\<close> (milliseconds since the epoch) and are kept as unbounded
  integers; the optional field \<^verbatim>\<open>blockedUntil?\<close> is an option.
\<close>

record RateLimitData =
  lastRequest :: int
  requestCount :: int
  blockedUntil :: "int option"

text \<open>
  AsyncStorage keeps strings. The text under a rate-limit key is abstracted by what
  \<^verbatim>\<open>JSON.parse\<close> makes of it: a serialised \<^verbatim>\<open>RateLimitData\<close> object,
  a text on which \<^verbatim>\<open>JSON.parse\<close> throws, or the empty string (which the
  source's \<^verbatim>\<open>!data\<close> treats like a missing entry). Texts that parse to a
  value of another shape are not represented.
\<close>

datatype item = Json RateLimitData | Garbage | EmptyText

text \<open>
  The store itself: the entries, and whether the backend currently serves reads and
  writes (a rejected promise of \<^verbatim>\<open>getItem\<close> / \<^verbatim>\<open>setItem\<close>).
\<close>

record AsyncStorage =
  items :: "string \<Rightarrow> item option"
  readable :: bool
  writable :: bool

datatype storage_error = ReadFailed | WriteFailed | SyntaxError

definition getItem :: "AsyncStorage \<Rightarrow> string \<Rightarrow> storage_error + item option" where
  "getItem s k = (if readable s then Inr (items s k) else Inl ReadFailed)"

definition setItem :: "AsyncStorage \<Rightarrow> string \<Rightarrow> item \<Rightarrow> storage_error + AsyncStorage" where
  "setItem s k v =
     (if writable s then Inr (s\<lparr>items := (items s)(k \<mapsto> v)\<rparr>) else Inl WriteFailed)"

definition JSON_parse :: "item \<Rightarrow> storage_error + RateLimitData" where
  "JSON_parse d = (case d of Json r \<Rightarrow> Inr r | Garbage \<Rightarrow> Inl SyntaxError
                   | EmptyText \<Rightarrow> Inl SyntaxError)"

definition RATE_LIMIT_KEY :: string where
  "RATE_LIMIT_KEY = ''rate_limit_data''"

definition MAX_REQUESTS_PER_MINUTE :: int where
  "MAX_REQUESTS_PER_MINUTE = 3"

definition BLOCK_DURATION :: int where
  "BLOCK_DURATION = 5 * 60 * 1000"

definition rate_key :: "string \<Rightarrow> string" where
  "rate_key action = RATE_LIMIT_KEY @ ''_'' @ action"

text \<open>\<^verbatim>\<open>Math.ceil(a / b)\<close> for a positive divisor.\<close>

definition ceil_div :: "int \<Rightarrow> int \<Rightarrow> int" where
  "ceil_div a b = - ((- a) div b)"

text \<open>
  The test \<^verbatim>\<open>rateLimitData.blockedUntil && now < rateLimitData.blockedUntil\<close>:
  a missing field and the number 0 are both falsy.
\<close>

definition currently_blocked :: "RateLimitData \<Rightarrow> int \<Rightarrow> bool" where
  "currently_blocked r now =
     (case blockedUntil r of None \<Rightarrow> False | Some b \<Rightarrow> b \<noteq> 0 \<and> now < b)"

text \<open>\<^verbatim>\<open>rateLimitData.blockedUntil - now\<close>, read only where the test above holds.\<close>

definition block_left :: "RateLimitData \<Rightarrow> int \<Rightarrow> int" where
  "block_left r now = (case blockedUntil r of None \<Rightarrow> 0 | Some b \<Rightarrow> b - now)"

record check_result =
  allowed :: bool
  waitTime :: "int option"

definition allow :: check_result where
  "allow = \<lparr>allowed = True, waitTime = None\<rparr>"

definition deny :: "int \<Rightarrow> check_result" where
  "deny w = \<lparr>allowed = False, waitTime = Some w\<rparr>"

text \<open>
  One write of a fresh record followed by \<^verbatim>\<open>return { allowed: true }\<close>, or by the
  given result; a rejected write propagates as the exception it is in the source.
\<close>

definition write_then ::
  "AsyncStorage \<Rightarrow> string \<Rightarrow> RateLimitData \<Rightarrow> check_result
     \<Rightarrow> storage_error + (check_result \<times> AsyncStorage)" where
  "write_then s key r res =
     (case setItem s key (Json r) of Inl e \<Rightarrow> Inl e | Inr s' \<Rightarrow> Inr (res, s'))"

text \<open>The body of the \<^verbatim>\<open>try\<close> block of \<^verbatim>\<open>checkRateLimit\<close>, branch by branch.\<close>

definition checkRateLimit_try ::
  "string \<Rightarrow> int \<Rightarrow> AsyncStorage \<Rightarrow> storage_error + (check_result \<times> AsyncStorage)" where
  "checkRateLimit_try action now s =
     (let key = rate_key action in
      case getItem s key of
        Inl e \<Rightarrow> Inl e
      | Inr None \<Rightarrow>
          write_then s key \<lparr>lastRequest = now, requestCount = 1, blockedUntil = None\<rparr> allow
      | Inr (Some EmptyText) \<Rightarrow>
          write_then s key \<lparr>lastRequest = now, requestCount = 1, blockedUntil = None\<rparr> allow
      | Inr (Some data) \<Rightarrow>
          (case JSON_parse data of
             Inl e \<Rightarrow> Inl e
           | Inr rateLimitData \<Rightarrow>
               if currently_blocked rateLimitData now then
                 Inr (deny (ceil_div (block_left rateLimitData now) 1000), s)
               else if now - lastRequest rateLimitData > 60 * 1000 then
                 write_then s key
                   \<lparr>lastRequest = now, requestCount = 1, blockedUntil = None\<rparr> allow
               else if requestCount rateLimitData < MAX_REQUESTS_PER_MINUTE then
                 write_then s key
                   \<lparr>lastRequest = now, requestCount = requestCount rateLimitData + 1,
                    blockedUntil = None\<rparr> allow
               else
                 write_then s key
                   \<lparr>lastRequest = now, requestCount = requestCount rateLimitData + 1,
                    blockedUntil = Some (now + BLOCK_DURATION)\<rparr>
                   (deny (ceil_div BLOCK_DURATION 1000))))"

text \<open>
  The whole function: the \<^verbatim>\<open>catch\<close> clause logs the error with
  \<^verbatim>\<open>console.error\<close> and answers \<^verbatim>\<open>{ allowed: true }\<close>. The result is the
  answer, the store afterwards, and the lines written to the error console.
\<close>

datatype log_entry = ConsoleError string storage_error

definition checkRateLimit ::
  "string \<Rightarrow> int \<Rightarrow> AsyncStorage \<Rightarrow> check_result \<times> AsyncStorage \<times> log_entry list" where
  "checkRateLimit action now s =
     (case checkRateLimit_try action now s of
        Inr (res, s') \<Rightarrow> (res, s', [])
      | Inl e \<Rightarrow> (allow, s, [ConsoleError ''Rate limit check error:'' e]))"

text \<open>\<^verbatim>\<open>clearRateLimit\<close>: remove the entry; a failure is logged and swallowed.\<close>

definition clearRateLimit :: "string \<Rightarrow> AsyncStorage \<Rightarrow> AsyncStorage \<times> log_entry list" where
  "clearRateLimit action s =
     (if writable s then (s\<lparr>items := (items s)(rate_key action := None)\<rparr>, [])
      else (s, [ConsoleError ''Clear rate limit error:'' WriteFailed]))"

text \<open>Consecutive calls for one action at the given clock readings.\<close>

definition answer :: "check_result \<times> AsyncStorage \<times> log_entry list \<Rightarrow> check_result" where
  "answer x = fst x"

definition store_after :: "check_result \<times> AsyncStorage \<times> log_entry list \<Rightarrow> AsyncStorage" where
  "store_after x = fst (snd x)"

definition logged :: "check_result \<times> AsyncStorage \<times> log_entry list \<Rightarrow> log_entry list" where
  "logged x = snd (snd x)"

primrec checks :: "string \<Rightarrow> int list \<Rightarrow> AsyncStorage \<Rightarrow> AsyncStorage" where
  "checks action [] s = s"
| "checks action (now # later) s = checks action later (store_after (checkRateLimit action now s))"

text \<open>The record persisted for an action, when its entry parses.\<close>

definition record_of :: "AsyncStorage \<Rightarrow> string \<Rightarrow> RateLimitData option" where
  "record_of s action =
     (case items s (rate_key action) of Some (Json r) \<Rightarrow> Some r | _ \<Rightarrow> None)"

text \<open>Whether the record persisted for an action carries a block that is still running.\<close>

definition blocked_in :: "AsyncStorage \<Rightarrow> string \<Rightarrow> int \<Rightarrow> bool" where
  "blocked_in s action now =
     (case record_of s action of None \<Rightarrow> False | Some r \<Rightarrow> currently_blocked r now)"

text \<open>
  The shape of every record the limiter itself writes when the clock never reads below
  zero: either an open window with one to three requests, or a block installed by the
  fourth request, running for five minutes from that request.
\<close>

definition window_ok :: "RateLimitData \<Rightarrow> bool" where
  "window_ok r \<longleftrightarrow>
     blockedUntil r = None \<and> 1 \<le> requestCount r \<and> requestCount r \<le> 3 \<or>
     requestCount r = 4 \<and> blockedUntil r = Some (lastRequest r + BLOCK_DURATION)
       \<and> 0 \<le> lastRequest r"

definition store_ok :: "AsyncStorage \<Rightarrow> string \<Rightarrow> bool" where
  "store_ok s action \<longleftrightarrow>
     (case items s (rate_key action) of
        None \<Rightarrow> True | Some (Json r) \<Rightarrow> window_ok r | Some _ \<Rightarrow> False)"

text \<open>A working store with no entries.\<close>

definition empty_store :: AsyncStorage where
  "empty_store = \<lparr>items = Map.empty, readable = True, writable = True\<rparr>"

section \<open>The code format check (src/app/otp-verification.tsx, isValidOTP)\<close>

text \<open>
  The source is \<^verbatim>\<open>/^\\d{6}$/.test(otp)\<close>. The fragment of regular expressions it
  uses: the assertions \<^verbatim>\<open>^\<close> and \<^verbatim>\<open>$\<close> (no \<^verbatim>\<open>m\<close> flag: start and end of
  the input only), the class \<^verbatim>\<open>\\d\<close> (no \<^verbatim>\<open>u\<close>/\<^verbatim>\<open>i\<close> flags: the range 0-9)
  and the exact quantifier \<^verbatim>\<open>{n}\<close>. Strings are sequences of 8-bit characters
  here; the class matches nothing outside ASCII in the source either.
\<close>

datatype atom = Digit

datatype node = Bol | Eol | Rep atom nat

fun atom_matches :: "atom \<Rightarrow> char \<Rightarrow> bool" where
  "atom_matches Digit c = (CHR ''0'' \<le> c \<and> c \<le> CHR ''9'')"

text \<open>\<^verbatim>\<open>a{n}\<close> against the rest of the input: the rest after it, if it matches.\<close>

fun eat :: "atom \<Rightarrow> nat \<Rightarrow> string \<Rightarrow> string option" where
  "eat a 0 rest = Some rest"
| "eat a (Suc n) [] = None"
| "eat a (Suc n) (c # cs) = (if atom_matches a c then eat a n cs else None)"

text \<open>A pattern at position \<open>i\<close> of the input, \<open>rest\<close> being the input from there on.\<close>

fun match_here :: "node list \<Rightarrow> nat \<Rightarrow> string \<Rightarrow> bool" where
  "match_here [] i rest = True"
| "match_here (Bol # ns) i rest = (i = 0 \<and> match_here ns i rest)"
| "match_here (Eol # ns) i rest = (rest = [] \<and> match_here ns i rest)"
| "match_here (Rep a n # ns) i rest =
     (case eat a n rest of None \<Rightarrow> False | Some rest' \<Rightarrow> match_here ns (i + n) rest')"

text \<open>\<^verbatim>\<open>RegExp.prototype.test\<close>: a match starting at any position of the input.\<close>

definition regex_test :: "node list \<Rightarrow> string \<Rightarrow> bool" where
  "regex_test p s = list_ex (\<lambda>i. match_here p i (drop i s)) [0..<Suc (length s)]"

definition isValidOTP :: "string \<Rightarrow> bool" where
  "isValidOTP otp = regex_test [Bol, Rep Digit 6, Eol] otp"

text \<open>An ASCII decimal digit, as the specification words it.\<close>

definition ascii_digit :: "char \<Rightarrow> bool" where
  "ascii_digit c = (c \<in> set ''0123456789'')"

section \<open>The verification screen (src/app/otp-verification.tsx)\<close>

subsection \<open>Strings\<close>

text \<open>
  \<^verbatim>\<open>String.prototype.toLowerCase\<close> on the ASCII letters and
  \<^verbatim>\<open>String.prototype.includes\<close>.
\<close>

definition lower_char :: "char \<Rightarrow> char" where
  "lower_char c =
     (if CHR ''A'' \<le> c \<and> c \<le> CHR ''Z'' then char_of (of_char c + (32::nat)) else c)"

definition toLowerCase :: "string \<Rightarrow> string" where
  "toLowerCase s = map lower_char s"

fun startsWith :: "string \<Rightarrow> string \<Rightarrow> bool" where
  "startsWith s [] = True"
| "startsWith [] (p # ps) = False"
| "startsWith (c # cs) (p # ps) = (c = p \<and> startsWith cs ps)"

fun str_includes :: "string \<Rightarrow> string \<Rightarrow> bool" where
  "str_includes [] p = (p = [])"
| "str_includes (c # cs) p = (startsWith (c # cs) p \<or> str_includes cs p)"

subsection \<open>State and effects\<close>

text \<open>The union type \<^verbatim>\<open>'register' | 'reset'\<close> of the pending flow.\<close>

datatype flow = register | reset

text \<open>
  \<^verbatim>\<open>OTPData\<close> of otpUtils (the optional \<^verbatim>\<open>password\<close> and
  \<^verbatim>\<open>session\<close> fields are never read by the screen).
\<close>

record OTPData =
  otp_email :: string
  otp_type :: flow

definition OTP_STORAGE_KEY :: string where
  "OTP_STORAGE_KEY = ''otp_verification_data''"

text \<open>
  The \<^verbatim>\<open>useState\<close> cells of \<^verbatim>\<open>OTPVerificationScreen\<close>, together with
  the AsyncStorage slot under \<^verbatim>\<open>OTP_STORAGE_KEY\<close> that holds the pending
  verification, and whether that store accepts a removal.
\<close>

record screen =
  loading :: bool
  resendTimer :: int
  resendDisabled :: bool
  verifying :: bool
  enteredOtp :: string
  email :: string
  type :: flow
  otpStore :: "OTPData option"
  otpStoreUp :: bool

text \<open>
  What a handler does to the outside: the dialogs it shows, the navigation it asks for,
  the calls to the remote auth service and the removal from storage, in program order.
  Console output is left out, and so is the emoji that starts two of the titles.
\<close>

datatype effect =
    Alert string string
  | AlertContinue string string string
  | RouterPush string
  | VerifyOtp string string string
  | GetSession
  | Resend string string
  | ResetPasswordForEmail string
  | RemoveItem string

text \<open>
  What the remote service answers: \<^verbatim>\<open>verifyOtp\<close> returns an error message or
  data with or without a user and a session, \<^verbatim>\<open>getSession\<close> an error or data with
  or without a session, the resend calls an error message or none; each call may also
  throw.
\<close>

datatype verify_reply = VerifyThrows | VerifyReturns "string option" bool bool

datatype session_reply = SessionThrows | SessionError | SessionData bool

datatype resend_reply = ResendThrows | ResendReturns "string option"

subsection \<open>The dialogs\<close>

text \<open>Each \<^verbatim>\<open>Alert.alert\<close> of the screen, with the title and the message it shows.\<close>

definition no_data_alert :: effect where
  "no_data_alert = Alert ''Error'' ''No verification data found. Please try again.''"

definition invalid_format_alert :: effect where
  "invalid_format_alert =
     Alert ''Invalid Format'' ''Please enter a valid 6-digit verification code.''"

definition code_expired_alert :: effect where
  "code_expired_alert =
     Alert ''Code Expired'' ''Your verification code has expired. Please request a new one.''"

definition invalid_code_alert :: effect where
  "invalid_code_alert =
     Alert ''Invalid Code''
       ''The verification code you entered is incorrect. Please try again.''"

definition too_many_attempts_alert :: effect where
  "too_many_attempts_alert =
     Alert ''Too Many Attempts''
       ''You have made too many verification attempts. Please wait before trying again.''"

definition no_session_created_alert :: effect where
  "no_session_created_alert =
     Alert ''Verification Error''
       ''Verification completed but no user session was created. Please try again.''"

definition session_fetch_alert :: effect where
  "session_fetch_alert =
     Alert ''Session Error'' ''Failed to retrieve user session. Please try logging in.''"

definition no_session_alert :: effect where
  "no_session_alert =
     Alert ''Session Error'' ''No active session found. Please try logging in.''"

definition unexpected_verify_alert :: effect where
  "unexpected_verify_alert =
     Alert ''Verification Error''
       ''An unexpected error occurred during verification. Please try again.''"

definition success_alert :: "flow \<Rightarrow> effect" where
  "success_alert t =
     AlertContinue ''Verification Successful!''
       (if t = register then ''Your account has been verified successfully. Welcome!''
        else ''Your identity has been verified successfully.'')
       ''/(tabs)''"

definition rate_limited_alert :: effect where
  "rate_limited_alert =
     Alert ''Rate Limited''
       ''You have requested too many codes. Please wait a few minutes before requesting another one.''"

definition user_not_found_alert :: effect where
  "user_not_found_alert =
     Alert ''User Not Found''
       ''No user found with this email address. Please check your email or register a new account.''"

definition code_sent_alert :: "string \<Rightarrow> effect" where
  "code_sent_alert address =
     Alert ''Code Sent!''
       (''A new verification code has been sent to '' @ address
        @ ''. Please check your inbox and spam folder.'')"

definition unexpected_resend_alert :: effect where
  "unexpected_resend_alert =
     Alert ''Resend Error''
       ''An unexpected error occurred while sending the code. Please try again later.''"

subsection \<open>Loading the pending verification\<close>

text \<open>
  \<^verbatim>\<open>getOTPData\<close> reads the slot; the mount effect copies a record with a
  non-empty email into the state and otherwise sends the user to the login screen.
\<close>

definition getOTPData :: "screen \<Rightarrow> OTPData option" where
  "getOTPData st = otpStore st"

definition loadOTPData :: "screen \<Rightarrow> screen \<times> effect list" where
  "loadOTPData st =
     (case getOTPData st of
        Some d \<Rightarrow>
          if otp_email d \<noteq> [] then (st\<lparr>email := otp_email d, type := otp_type d\<rparr>, [])
          else (st, [no_data_alert, RouterPush ''/login''])
      | None \<Rightarrow> (st, [no_data_alert, RouterPush ''/login'']))"

text \<open>\<^verbatim>\<open>clearOTPData\<close>: the removal, whose failure is swallowed.\<close>

definition clearOTPData :: "screen \<Rightarrow> screen" where
  "clearOTPData st = (if otpStoreUp st then st\<lparr>otpStore := None\<rparr> else st)"

subsection \<open>handleVerify\<close>

definition verificationType :: "flow \<Rightarrow> string" where
  "verificationType t = (if t = register then ''signup'' else ''recovery'')"

text \<open>The dialog for an error returned by \<^verbatim>\<open>verifyOtp\<close>, chosen by its text.\<close>

definition verify_error_alert :: "string \<Rightarrow> effect" where
  "verify_error_alert message =
     (if str_includes (toLowerCase message) ''expired'' then code_expired_alert
      else if str_includes (toLowerCase message) ''invalid''
              \<or> str_includes (toLowerCase message) ''token'' then invalid_code_alert
      else if str_includes (toLowerCase message) ''rate limit'' then too_many_attempts_alert
      else Alert ''Verification Failed'' message)"

text \<open>
  The state the handler leaves behind while it waits for the remote service:
  \<^verbatim>\<open>setVerifying(true); setLoading(true)\<close>.
\<close>

definition handleVerify_begin :: "screen \<Rightarrow> screen" where
  "handleVerify_begin st = st\<lparr>verifying := True, loading := True\<rparr>"

text \<open>The \<^verbatim>\<open>finally\<close> clause.\<close>

definition handleVerify_finally :: "screen \<Rightarrow> screen" where
  "handleVerify_finally st = st\<lparr>loading := False, verifying := False\<rparr>"

text \<open>
  What follows a verification the service accepted: the session query and, if a session
  is there, the removal of the pending verification and the success dialog.
\<close>

definition confirm_session :: "screen \<Rightarrow> session_reply \<Rightarrow> screen \<times> effect list" where
  "confirm_session st sr =
     (case sr of
        SessionThrows \<Rightarrow> (st, [GetSession, unexpected_verify_alert])
      | SessionError \<Rightarrow> (st, [GetSession, session_fetch_alert, RouterPush ''/login''])
      | SessionData present \<Rightarrow>
          if \<not> present then (st, [GetSession, no_session_alert, RouterPush ''/login''])
          else (clearOTPData st,
                [GetSession, RemoveItem OTP_STORAGE_KEY, success_alert (type st)]))"

text \<open>The \<^verbatim>\<open>try\<close> block with its \<^verbatim>\<open>catch\<close>, given the replies of the service.\<close>

definition handleVerify_try ::
  "screen \<Rightarrow> string \<Rightarrow> verify_reply \<Rightarrow> session_reply \<Rightarrow> screen \<times> effect list" where
  "handleVerify_try st otp vr sr =
     (let call = VerifyOtp (email st) otp (verificationType (type st)) in
      case vr of
        VerifyThrows \<Rightarrow> (st, [call, unexpected_verify_alert])
      | VerifyReturns error hasUser hasSession \<Rightarrow>
          (case error of
             Some message \<Rightarrow> (st, [call, verify_error_alert message])
           | None \<Rightarrow>
               if \<not> hasUser \<and> \<not> hasSession then (st, [call, no_session_created_alert])
               else (case confirm_session st sr of (st', effects) \<Rightarrow> (st', call # effects))))"

definition handleVerify ::
  "screen \<Rightarrow> string \<Rightarrow> verify_reply \<Rightarrow> session_reply \<Rightarrow> screen \<times> effect list" where
  "handleVerify st otp vr sr =
     (if verifying st then (st, [])
      else if \<not> isValidOTP otp then (st, [invalid_format_alert])
      else
        (case handleVerify_try (handleVerify_begin st) otp vr sr of
           (st', effects) \<Rightarrow> (handleVerify_finally st', effects)))"

text \<open>Successive verification attempts, each with the replies it receives.\<close>

fun verify_attempts ::
  "screen \<Rightarrow> (string \<times> verify_reply \<times> session_reply) list \<Rightarrow> screen \<times> effect list" where
  "verify_attempts st [] = (st, [])"
| "verify_attempts st ((otp, vr, sr) # later) =
     (case handleVerify st otp vr sr of
        (st', effects) \<Rightarrow>
          (case verify_attempts st' later of (st'', effects') \<Rightarrow> (st'', effects @ effects')))"


subsection \<open>handleResend\<close>

text \<open>The remote call the flow selects.\<close>

definition resend_call :: "screen \<Rightarrow> effect" where
  "resend_call st =
     (if type st = register then Resend ''signup'' (email st)
      else ResetPasswordForEmail (email st))"

definition handleResend :: "screen \<Rightarrow> resend_reply \<Rightarrow> screen \<times> effect list" where
  "handleResend st rr =
     (if resendDisabled st then (st, [])
      else
        (case rr of
           ResendThrows \<Rightarrow> (st\<lparr>loading := False\<rparr>, [resend_call st, unexpected_resend_alert])
         | ResendReturns error \<Rightarrow>
             (case error of
                Some message \<Rightarrow>
                  if str_includes (toLowerCase message) ''rate limit''
                     \<or> str_includes (toLowerCase message) ''too many requests'' then
                    (st\<lparr>resendTimer := 300, resendDisabled := True, loading := False\<rparr>,
                     [resend_call st, rate_limited_alert])
                  else if str_includes (toLowerCase message) ''user not found'' then
                    (st\<lparr>loading := False\<rparr>, [resend_call st, user_not_found_alert])
                  else (st\<lparr>loading := False\<rparr>,
                        [resend_call st, Alert ''Resend Failed'' message])
              | None \<Rightarrow>
                  (st\<lparr>resendTimer := 30, resendDisabled := True, loading := False\<rparr>,
                   [resend_call st, code_sent_alert (email st)]))))"

text \<open>Successive presses of the resend control, each with the reply it receives.\<close>

fun resend_presses :: "screen \<Rightarrow> resend_reply list \<Rightarrow> (screen \<times> effect list) list" where
  "resend_presses st [] = []"
| "resend_presses st (rr # later) =
     handleResend st rr # resend_presses (fst (handleResend st rr)) later"

subsection \<open>Reading a trace\<close>

definition is_verify_call :: "effect \<Rightarrow> bool" where
  "is_verify_call e = (case e of VerifyOtp _ _ _ \<Rightarrow> True | _ \<Rightarrow> False)"

text \<open>
  The outcome kinds of the specification, read off the title of the dialog that reports
  them.
\<close>

datatype resultKind =
  Success | ExpiredCode | InvalidCode | RateLimited | UserNotFound | SessionMissing
  | NetworkOrUnknown

definition kind_of_title :: "string \<Rightarrow> resultKind option" where
  "kind_of_title title =
     (if title = ''Verification Successful!'' then Some Success
      else if title = ''Code Expired'' then Some ExpiredCode
      else if title = ''Invalid Code'' \<or> title = ''Invalid Format'' then Some InvalidCode
      else if title = ''Too Many Attempts'' \<or> title = ''Rate Limited'' then Some RateLimited
      else if title = ''User Not Found'' then Some UserNotFound
      else if title = ''Session Error'' then Some SessionMissing
      else if title = ''Verification Failed'' \<or> title = ''Verification Error''
              \<or> title = ''Resend Failed'' \<or> title = ''Resend Error'' then Some NetworkOrUnknown
      else None)"

definition kind_of :: "effect \<Rightarrow> resultKind option" where
  "kind_of e =
     (case e of Alert title _ \<Rightarrow> kind_of_title title
      | AlertContinue title _ _ \<Rightarrow> kind_of_title title
      | _ \<Rightarrow> None)"

definition outcomes :: "effect list \<Rightarrow> resultKind list" where
  "outcomes effects = List.map_filter kind_of effects"

text \<open>A screen showing a registration code for \<^verbatim>\<open>a@b.com\<close>, nothing in progress.\<close>

definition idle_screen :: screen where
  "idle_screen =
     \<lparr>loading = False, resendTimer = 0, resendDisabled = False, verifying = False,
      enteredOtp = [], email = ''a@b.com'', type = register,
      otpStore = Some \<lparr>otp_email = ''a@b.com'', otp_type = register\<rparr>, otpStoreUp = True\<rparr>"

section \<open>Verified properties\<close>

subsection \<open>Branches of the rate limiter\<close>

lemma try_unreadable: "\<not> readable s \<Longrightarrow> checkRateLimit_try a now s = Inl ReadFailed"
  by (simp add: checkRateLimit_try_def getItem_def)

lemma try_cases:
  "readable s \<Longrightarrow> checkRateLimit_try a now s =
    (case items s (rate_key a) of
       None \<Rightarrow> write_then s (rate_key a) \<lparr>lastRequest = now, requestCount = 1, blockedUntil = None\<rparr> allow
     | Some EmptyText \<Rightarrow> write_then s (rate_key a) \<lparr>lastRequest = now, requestCount = 1, blockedUntil = None\<rparr> allow
     | Some Garbage \<Rightarrow> Inl SyntaxError
     | Some (Json r) \<Rightarrow>
        if currently_blocked r now then Inr (deny (ceil_div (block_left r now) 1000), s)
        else if now - lastRequest r > 60000 then write_then s (rate_key a) \<lparr>lastRequest = now, requestCount = 1, blockedUntil = None\<rparr> allow
        else if requestCount r < 3 then write_then s (rate_key a) \<lparr>lastRequest = now, requestCount = requestCount r + 1, blockedUntil = None\<rparr> allow
        else write_then s (rate_key a) \<lparr>lastRequest = now, requestCount = requestCount r + 1, blockedUntil = Some (now + 300000)\<rparr> (deny 300))"
  by (simp add: checkRateLimit_try_def getItem_def JSON_parse_def MAX_REQUESTS_PER_MINUTE_def BLOCK_DURATION_def ceil_div_def
      split: option.splits item.splits)

lemma write_then_ok: "writable s \<Longrightarrow> write_then s k r res = Inr (res, s\<lparr>items := (items s)(k \<mapsto> Json r)\<rparr>)"
  by (simp add: write_then_def setItem_def)

lemma write_then_fail: "\<not> writable s \<Longrightarrow> write_then s k r res = Inl WriteFailed"
  by (simp add: write_then_def setItem_def)

lemma check_fresh:
  "readable s \<Longrightarrow> writable s \<Longrightarrow> items s (rate_key a) = None \<or> items s (rate_key a) = Some EmptyText \<Longrightarrow>
   checkRateLimit a now s =
     (allow, s\<lparr>items := (items s)(rate_key a \<mapsto> Json \<lparr>lastRequest = now, requestCount = 1, blockedUntil = None\<rparr>)\<rparr>, [])"
  by (auto simp add: checkRateLimit_def try_cases write_then_ok)

lemma check_json:
  "readable s \<Longrightarrow> writable s \<Longrightarrow> items s (rate_key a) = Some (Json r) \<Longrightarrow>
   checkRateLimit a now s =
     (if currently_blocked r now then (deny (ceil_div (block_left r now) 1000), s, [])
      else if now - lastRequest r > 60000 then
        (allow, s\<lparr>items := (items s)(rate_key a \<mapsto> Json \<lparr>lastRequest = now, requestCount = 1, blockedUntil = None\<rparr>)\<rparr>, [])
      else if requestCount r < 3 then
        (allow, s\<lparr>items := (items s)(rate_key a \<mapsto> Json \<lparr>lastRequest = now, requestCount = requestCount r + 1, blockedUntil = None\<rparr>)\<rparr>, [])
      else (deny 300, s\<lparr>items := (items s)(rate_key a \<mapsto> Json \<lparr>lastRequest = now, requestCount = requestCount r + 1, blockedUntil = Some (now + 300000)\<rparr>)\<rparr>, []))"
  by (simp add: checkRateLimit_def try_cases write_then_ok)

lemma check_unreadable:
  "\<not> readable s \<Longrightarrow> checkRateLimit a now s = (allow, s, [ConsoleError ''Rate limit check error:'' ReadFailed])"
  by (simp add: checkRateLimit_def try_unreadable)

lemma check_garbage:
  "readable s \<Longrightarrow> items s (rate_key a) = Some Garbage \<Longrightarrow>
   checkRateLimit a now s = (allow, s, [ConsoleError ''Rate limit check error:'' SyntaxError])"
  by (simp add: checkRateLimit_def try_cases)

lemma check_failing_store:
  "\<not> (readable s \<and> writable s) \<Longrightarrow> store_after (checkRateLimit a now s) = s"
  by (cases "readable s")
     (auto simp: checkRateLimit_def try_cases try_unreadable write_then_fail store_after_def
           split: option.splits item.splits)

lemma check_blocked:
  assumes "blocked_in s a now"
  shows "store_after (checkRateLimit a now s) = s"
proof (cases "readable s \<and> writable s")
  case False
  then show ?thesis by (rule check_failing_store)
next
  case True
  from assms obtain r where "items s (rate_key a) = Some (Json r)" "currently_blocked r now"
    by (auto simp: blocked_in_def record_of_def split: option.splits item.splits)
  with True show ?thesis
    by (simp add: check_json store_after_def)
qed

subsection \<open>Three requests a minute, then a five-minute block\<close>

text \<open>
  Claim C5. On a working store with no record for the action, calls that each come
  within 60 seconds of the one before are allowed three times; the fourth is refused with
  a wait of 300 seconds and persists \<open>blockedUntil = now + 300000\<close> with a request
  count of 4; a call at or after that instant is allowed again and leaves a fresh window
  with \<open>requestCount = 1\<close> and no block.
\<close>

theorem check_three_then_block:
  assumes "readable s" "writable s" "items s (rate_key action) = None"
    and "t2 - t1 \<le> 60000" "t3 - t2 \<le> 60000" "t4 - t3 \<le> 60000" "t4 + 300000 \<le> t5"
  shows "let c1 = checkRateLimit action t1 s;
             c2 = checkRateLimit action t2 (store_after c1);
             c3 = checkRateLimit action t3 (store_after c2);
             c4 = checkRateLimit action t4 (store_after c3);
             c5 = checkRateLimit action t5 (store_after c4)
         in allowed (answer c1) \<and> allowed (answer c2) \<and> allowed (answer c3) \<and>
            \<not> allowed (answer c4) \<and> waitTime (answer c4) = Some 300 \<and>
            record_of (store_after c4) action =
              Some \<lparr>lastRequest = t4, requestCount = 4, blockedUntil = Some (t4 + 300000)\<rparr> \<and>
            allowed (answer c5) \<and>
            record_of (store_after c5) action =
              Some \<lparr>lastRequest = t5, requestCount = 1, blockedUntil = None\<rparr>"
  using assms
  by (simp add: Let_def check_fresh check_json answer_def store_after_def record_of_def
      currently_blocked_def allow_def deny_def)

theorem check_three_then_block_witness:
  "readable empty_store \<and> writable empty_store \<and> items empty_store (rate_key ''x'') = None \<and>
   (1000::int) - 0 \<le> 60000 \<and> (2000::int) - 1000 \<le> 60000 \<and> (3000::int) - 2000 \<le> 60000 \<and>
   (3000::int) + 300000 \<le> 303000 \<and>
   (let c1 = checkRateLimit ''x'' 0 empty_store;
        c2 = checkRateLimit ''x'' 1000 (store_after c1);
        c3 = checkRateLimit ''x'' 2000 (store_after c2);
        c4 = checkRateLimit ''x'' 3000 (store_after c3);
        c5 = checkRateLimit ''x'' 303000 (store_after c4)
    in allowed (answer c1) \<and> allowed (answer c2) \<and> allowed (answer c3) \<and>
       \<not> allowed (answer c4) \<and> waitTime (answer c4) = Some 300 \<and>
       record_of (store_after c4) ''x'' =
         Some \<lparr>lastRequest = 3000, requestCount = 4, blockedUntil = Some 303000\<rparr> \<and>
       allowed (answer c5) \<and>
       record_of (store_after c5) ''x'' =
         Some \<lparr>lastRequest = 303000, requestCount = 1, blockedUntil = None\<rparr>)"
proof -
  have h: "readable empty_store" "writable empty_store" "items empty_store (rate_key ''x'') = None"
    by (simp_all add: empty_store_def)
  from check_three_then_block [OF h, of 1000 0 2000 3000 303000] h
  show ?thesis by simp
qed

subsection \<open>Failing open\<close>

text \<open>
  Claim C7. When the read of the record is rejected, or the stored text does not parse,
  \<open>checkRateLimit\<close> answers \<open>allowed: true\<close>, leaves the store as it was, and
  writes exactly one line to the error console; the function returns a value in every
  case, so the exception raised inside the \<open>try\<close> block does not reach the caller.
\<close>

theorem check_fails_open:
  assumes "\<not> readable s \<or> items s (rate_key action) = Some Garbage"
  shows "allowed (answer (checkRateLimit action now s)) \<and>
         store_after (checkRateLimit action now s) = s \<and>
         (\<exists>e. logged (checkRateLimit action now s) = [ConsoleError ''Rate limit check error:'' e])"
proof (cases "readable s")
  case False
  then show ?thesis
    by (simp add: check_unreadable answer_def store_after_def logged_def allow_def)
next
  case True
  with assms have "items s (rate_key action) = Some Garbage" by simp
  with True show ?thesis
    by (simp add: check_garbage answer_def store_after_def logged_def allow_def)
qed

theorem check_fails_open_witness:
  "\<not> readable (empty_store\<lparr>readable := False\<rparr>) \<and>
   allowed (answer (checkRateLimit ''otp_resend'' 5 (empty_store\<lparr>readable := False\<rparr>))) \<and>
   store_after (checkRateLimit ''otp_resend'' 5 (empty_store\<lparr>readable := False\<rparr>))
     = empty_store\<lparr>readable := False\<rparr> \<and>
   (\<exists>e. logged (checkRateLimit ''otp_resend'' 5 (empty_store\<lparr>readable := False\<rparr>))
          = [ConsoleError ''Rate limit check error:'' e])"
proof -
  have h: "\<not> readable (empty_store\<lparr>readable := False\<rparr>) \<or>
      items (empty_store\<lparr>readable := False\<rparr>) (rate_key ''otp_resend'') = Some Garbage"
    by simp
  from check_fails_open [OF h, of 5] show ?thesis by simp
qed

subsection \<open>Which calls write\<close>

text \<open>
  Claim C6, as the specification states it, fails: after four calls within four seconds
  the fifth call, one second later, is refused under the running block and leaves the
  store exactly as it found it.
\<close>

theorem check_under_block_writes_nothing:
  "blocked_in (checks ''otp_resend'' [0, 1000, 2000, 3000] empty_store) ''otp_resend'' 4000 \<and>
   \<not> allowed (answer (checkRateLimit ''otp_resend'' 4000
          (checks ''otp_resend'' [0, 1000, 2000, 3000] empty_store))) \<and>
   store_after (checkRateLimit ''otp_resend'' 4000
          (checks ''otp_resend'' [0, 1000, 2000, 3000] empty_store))
     = checks ''otp_resend'' [0, 1000, 2000, 3000] empty_store"
proof -
  define s4 where "s4 = checks ''otp_resend'' [0, 1000, 2000, 3000] empty_store"
  have rw: "readable s4" "writable s4"
    by (simp_all add: s4_def empty_store_def check_fresh check_json store_after_def
        currently_blocked_def)
  have rec: "items s4 (rate_key ''otp_resend'') =
      Some (Json \<lparr>lastRequest = 3000, requestCount = 4, blockedUntil = Some 303000\<rparr>)"
    by (simp add: s4_def empty_store_def check_fresh check_json store_after_def
        currently_blocked_def)
  have b: "blocked_in s4 ''otp_resend'' 4000"
    by (simp add: blocked_in_def record_of_def rec currently_blocked_def)
  have "checkRateLimit ''otp_resend'' 4000 s4 = (deny 299, s4, [])"
    by (simp add: check_json [OF rw rec] currently_blocked_def block_left_def ceil_div_def)
  with b have "blocked_in s4 ''otp_resend'' 4000 \<and>
      \<not> allowed (answer (checkRateLimit ''otp_resend'' 4000 s4)) \<and>
      store_after (checkRateLimit ''otp_resend'' 4000 s4) = s4"
    by (simp add: answer_def store_after_def deny_def)
  then show ?thesis
    unfolding s4_def .
qed

lemma bumped_differs:
  "\<lparr>lastRequest = l, requestCount = requestCount r + 1, blockedUntil = b\<rparr> \<noteq> r"
proof
  assume "\<lparr>lastRequest = l, requestCount = requestCount r + 1, blockedUntil = b\<rparr> = r"
  then have "requestCount \<lparr>lastRequest = l, requestCount = requestCount r + 1, blockedUntil = b\<rparr>
      = requestCount r"
    by (rule arg_cong)
  then show False by simp
qed

text \<open>
  Claim C6, amended. On a working store whose entry for the action is not corrupted, a
  call that is refused under a running block writes nothing, and every other call
  replaces the entry by a different one: a record stamped with the time of the call.
\<close>

theorem check_writes_unless_blocked:
  assumes "readable s" "writable s" "items s (rate_key action) \<noteq> Some Garbage"
  shows "if blocked_in s action now then store_after (checkRateLimit action now s) = s
         else items (store_after (checkRateLimit action now s)) (rate_key action)
                \<noteq> items s (rate_key action) \<and>
              (\<exists>r. record_of (store_after (checkRateLimit action now s)) action = Some r
                   \<and> lastRequest r = now)"
proof (cases "items s (rate_key action)")
  case None
  with assms show ?thesis
    by (simp add: check_fresh blocked_in_def record_of_def store_after_def)
next
  case (Some d)
  show ?thesis
  proof (cases d)
    case (Json r)
    with Some have r: "items s (rate_key action) = Some (Json r)" by simp
    show ?thesis
      by (auto simp: check_json [OF assms(1,2) r] blocked_in_def record_of_def store_after_def r
            bumped_differs)
  next
    case Garbage
    with Some assms(3) show ?thesis by simp
  next
    case EmptyText
    with Some assms show ?thesis
      by (simp add: check_fresh blocked_in_def record_of_def store_after_def)
  qed
qed

theorem check_writes_unless_blocked_witness:
  "readable empty_store \<and> writable empty_store \<and>
   items empty_store (rate_key ''x'') \<noteq> Some Garbage \<and>
   \<not> blocked_in empty_store ''x'' 7 \<and>
   items (store_after (checkRateLimit ''x'' 7 empty_store)) (rate_key ''x'')
     \<noteq> items empty_store (rate_key ''x'') \<and>
   (\<exists>r. record_of (store_after (checkRateLimit ''x'' 7 empty_store)) ''x'' = Some r
        \<and> lastRequest r = 7)"
proof -
  have h: "readable empty_store" "writable empty_store"
    "items empty_store (rate_key ''x'') \<noteq> Some Garbage"
    by (simp_all add: empty_store_def)
  have nb: "\<not> blocked_in empty_store ''x'' 7"
    by (simp add: blocked_in_def record_of_def empty_store_def)
  from check_writes_unless_blocked [OF h, of 7] nb h show ?thesis by simp
qed

subsection \<open>The request count stays bounded\<close>

lemma store_ok_step:
  assumes "store_ok s a" "0 \<le> now"
  shows "store_ok (store_after (checkRateLimit a now s)) a"
proof (cases "readable s \<and> writable s")
  case False
  with assms show ?thesis by (simp add: check_failing_store)
next
  case True
  then have rw: "readable s" "writable s" by simp_all
  show ?thesis
  proof (cases "items s (rate_key a)")
    case None
    then show ?thesis
      by (simp add: check_fresh rw store_after_def store_ok_def window_ok_def)
  next
    case (Some d)
    with assms(1) obtain r where r: "items s (rate_key a) = Some (Json r)" "window_ok r"
      by (cases d) (auto simp: store_ok_def)
    from r(2) assms(2) show ?thesis
      by (auto simp: check_json [OF rw r(1)] store_after_def store_ok_def window_ok_def r(1)
            currently_blocked_def BLOCK_DURATION_def)
  qed
qed

lemma store_ok_checks:
  "store_ok s a \<Longrightarrow> \<forall>t\<in>set ts. 0 \<le> t \<Longrightarrow> store_ok (checks a ts s) a"
  by (induction ts arbitrary: s) (simp_all add: store_ok_step)

text \<open>
  Claim C10. Starting without a record and with a clock that never reads below zero
  (\<open>Date.now()\<close> counts milliseconds from the epoch), after any sequence of calls the
  action has no record yet or a record whose \<open>requestCount\<close> lies between 1 and 4; the
  count is 4 exactly when a block is installed, and while that block runs no call writes
  the record again.
\<close>

theorem requestCount_bounded:
  assumes "items s (rate_key action) = None" and "\<forall>t\<in>set ts. 0 \<le> t"
  shows "items (checks action ts s) (rate_key action) = None \<or>
         (\<exists>r. items (checks action ts s) (rate_key action) = Some (Json r) \<and>
              1 \<le> requestCount r \<and> requestCount r \<le> 4 \<and>
              (requestCount r = 4 \<longleftrightarrow> blockedUntil r \<noteq> None) \<and>
              (\<forall>now. currently_blocked r now \<longrightarrow>
                 store_after (checkRateLimit action now (checks action ts s))
                   = checks action ts s))"
proof -
  let ?s = "checks action ts s"
  from assms(1) have "store_ok s action" by (simp add: store_ok_def)
  then have ok: "store_ok ?s action" using assms(2) by (rule store_ok_checks)
  show ?thesis
  proof (cases "items ?s (rate_key action)")
    case None
    then show ?thesis by simp
  next
    case (Some d)
    with ok obtain r where r: "items ?s (rate_key action) = Some (Json r)" "window_ok r"
      by (cases d) (auto simp: store_ok_def)
    have "store_after (checkRateLimit action now ?s) = ?s" if "currently_blocked r now" for now
      using that r(1) by (intro check_blocked) (simp add: blocked_in_def record_of_def)
    moreover from r(2) have "1 \<le> requestCount r \<and> requestCount r \<le> 4 \<and>
        (requestCount r = 4 \<longleftrightarrow> blockedUntil r \<noteq> None)"
      by (auto simp: window_ok_def)
    ultimately show ?thesis using r(1) by simp
  qed
qed

theorem requestCount_bounded_witness:
  "items empty_store (rate_key ''x'') = None \<and>
   (\<exists>r. items (checks ''x'' [0, 10, 20, 30, 40] empty_store) (rate_key ''x'') = Some (Json r) \<and>
        requestCount r = 4 \<and> blockedUntil r = Some 300030)"
proof -
  have h: "items empty_store (rate_key ''x'') = None" "\<forall>t\<in>set [0, 10, 20, 30, 40::int]. 0 \<le> t"
    by (simp_all add: empty_store_def)
  have rec: "items (checks ''x'' [0, 10, 20, 30, 40] empty_store) (rate_key ''x'') =
      Some (Json \<lparr>lastRequest = 30, requestCount = 4, blockedUntil = Some 300030\<rparr>)"
    by (simp add: empty_store_def check_fresh check_json store_after_def currently_blocked_def)
  from requestCount_bounded [OF h] rec h(1) show ?thesis by simp
qed

subsection \<open>The code format\<close>

lemma digit_class: "atom_matches Digit c \<longleftrightarrow> ascii_digit c"
  by (cases c) (auto simp: less_eq_char_def ascii_digit_def)

lemma eat_Some:
  "eat a n s = Some r \<longleftrightarrow>
     n \<le> length s \<and> (\<forall>c\<in>set (take n s). atom_matches a c) \<and> r = drop n s"
  by (induction a n s rule: eat.induct) auto

lemma anchored_test:
  "regex_test (Bol # p) s \<longleftrightarrow> match_here p 0 s"
proof -
  have "regex_test (Bol # p) s \<longleftrightarrow> (\<exists>i\<in>set [0..<Suc (length s)]. i = 0 \<and> match_here p i (drop i s))"
    by (simp add: regex_test_def list_ex_iff)
  also have "\<dots> \<longleftrightarrow> match_here p 0 s"
    by auto
  finally show ?thesis .
qed

lemma six_digits: "isValidOTP otp \<longleftrightarrow> length otp = 6 \<and> (\<forall>c\<in>set otp. ascii_digit c)"
proof -
  have "isValidOTP otp \<longleftrightarrow> (\<exists>r. eat Digit 6 otp = Some r \<and> r = [])"
    by (simp add: isValidOTP_def anchored_test split: option.splits)
  also have "\<dots> \<longleftrightarrow> 6 \<le> length otp \<and> (\<forall>c\<in>set (take 6 otp). ascii_digit c) \<and> drop 6 otp = []"
    by (auto simp: eat_Some digit_class simp del: atom_matches.simps)
  also have "\<dots> \<longleftrightarrow> length otp = 6 \<and> (\<forall>c\<in>set otp. ascii_digit c)"
    by auto
  finally show ?thesis .
qed

text \<open>
  Claim C4. \<open>isValidOTP\<close> accepts a string exactly when it has six characters, each an
  ASCII decimal digit; so nothing may precede or follow the digits, whitespace and a
  final line break included. It accepts \<open>123456\<close> and rejects \<open>12345\<close>, \<open>abcdef\<close>,
  \<open>123 456\<close> and the empty string.
\<close>

theorem isValidOTP_six_digits:
  "(isValidOTP code \<longleftrightarrow> length code = 6 \<and> (\<forall>c\<in>set code. ascii_digit c)) \<and>
   isValidOTP ''123456'' \<and> \<not> isValidOTP ''12345'' \<and> \<not> isValidOTP ''abcdef'' \<and>
   \<not> isValidOTP ''123 456'' \<and> \<not> isValidOTP [] \<and>
   \<not> isValidOTP '' 123456'' \<and> \<not> isValidOTP ''123456 '' \<and>
   \<not> isValidOTP (''123456'' @ [CHR 0x0A])"
  by (simp add: six_digits ascii_digit_def)

theorem isValidOTP_six_digits_witness:
  "length ''000000'' = 6 \<and> list_all ascii_digit ''000000'' \<and> isValidOTP ''000000''"
proof -
  have "list_all ascii_digit ''000000''"
    by (simp add: ascii_digit_def)
  moreover from this have "\<forall>c\<in>set ''000000''. ascii_digit c"
    by (simp only: list_all_iff)
  with isValidOTP_six_digits [of "''000000''"] have "isValidOTP ''000000''"
    by simp
  ultimately show ?thesis by simp
qed

subsection \<open>Verification attempts\<close>

lemma outcomes_Nil: "outcomes [] = []"
  by (simp add: outcomes_def map_filter_simps)

lemma outcomes_Cons:
  "outcomes (e # es) = (case kind_of e of None \<Rightarrow> outcomes es | Some k \<Rightarrow> k # outcomes es)"
  by (simp add: outcomes_def map_filter_simps split: option.splits)

lemma kind_of_calls:
  "kind_of (VerifyOtp a b c) = None" "kind_of GetSession = None" "kind_of (RouterPush p) = None"
  "kind_of (RemoveItem k) = None" "kind_of (Resend t a) = None"
  "kind_of (ResetPasswordForEmail a) = None"
  by (simp_all add: kind_of_def)

lemma kind_of_alerts:
  "kind_of invalid_format_alert = Some InvalidCode"
  "kind_of code_expired_alert = Some ExpiredCode"
  "kind_of invalid_code_alert = Some InvalidCode"
  "kind_of too_many_attempts_alert = Some RateLimited"
  "kind_of no_session_created_alert = Some NetworkOrUnknown"
  "kind_of session_fetch_alert = Some SessionMissing"
  "kind_of no_session_alert = Some SessionMissing"
  "kind_of unexpected_verify_alert = Some NetworkOrUnknown"
  "kind_of (success_alert t) = Some Success"
  "kind_of (Alert ''Verification Failed'' m) = Some NetworkOrUnknown"
  by (simp_all add: invalid_format_alert_def code_expired_alert_def invalid_code_alert_def
      too_many_attempts_alert_def no_session_created_alert_def session_fetch_alert_def
      no_session_alert_def unexpected_verify_alert_def success_alert_def kind_of_def
      kind_of_title_def)

lemma kind_of_verify_error_alert:
  "kind_of (verify_error_alert m) =
     Some (if str_includes (toLowerCase m) ''expired'' then ExpiredCode
           else if str_includes (toLowerCase m) ''invalid'' \<or> str_includes (toLowerCase m) ''token''
             then InvalidCode
           else if str_includes (toLowerCase m) ''rate limit'' then RateLimited
           else NetworkOrUnknown)"
  by (simp add: verify_error_alert_def kind_of_alerts)

lemma no_verify_call:
  "\<not> is_verify_call (verify_error_alert m)" "\<not> is_verify_call unexpected_verify_alert"
  "\<not> is_verify_call (success_alert t)" "\<not> is_verify_call no_session_created_alert"
  "\<not> is_verify_call session_fetch_alert" "\<not> is_verify_call no_session_alert"
  "\<not> is_verify_call invalid_format_alert"
  "\<not> is_verify_call GetSession" "\<not> is_verify_call (RouterPush p)"
  "\<not> is_verify_call (RemoveItem k)" "is_verify_call (VerifyOtp x y z)"
  by (simp_all add: verify_error_alert_def unexpected_verify_alert_def success_alert_def
      no_session_created_alert_def session_fetch_alert_def no_session_alert_def
      invalid_format_alert_def code_expired_alert_def invalid_code_alert_def
      too_many_attempts_alert_def is_verify_call_def)

lemma not_a_removal:
  "RemoveItem k \<noteq> verify_error_alert m" "RemoveItem k \<noteq> session_fetch_alert"
  "RemoveItem k \<noteq> no_session_alert" "RemoveItem k \<noteq> unexpected_verify_alert"
  "RemoveItem k \<noteq> no_session_created_alert" "RemoveItem k \<noteq> invalid_format_alert"
  by (simp_all add: verify_error_alert_def code_expired_alert_def invalid_code_alert_def
      too_many_attempts_alert_def session_fetch_alert_def no_session_alert_def
      unexpected_verify_alert_def no_session_created_alert_def invalid_format_alert_def)

lemma lower_token_has_expired: "toLowerCase ''Token has expired'' = ''token has expired''"
  by code_simp

subsection \<open>Branches of the verification handler\<close>

lemma confirm_session_cases:
  "confirm_session st SessionThrows = (st, [GetSession, unexpected_verify_alert])"
  "confirm_session st SessionError = (st, [GetSession, session_fetch_alert, RouterPush ''/login''])"
  "confirm_session st (SessionData False)
     = (st, [GetSession, no_session_alert, RouterPush ''/login''])"
  "confirm_session st (SessionData True)
     = (clearOTPData st, [GetSession, RemoveItem OTP_STORAGE_KEY, success_alert (type st)])"
  by (simp_all add: confirm_session_def)

lemma try_throws:
  "handleVerify_try st otp VerifyThrows sr =
     (st, [VerifyOtp (email st) otp (verificationType (type st)), unexpected_verify_alert])"
  by (simp add: handleVerify_try_def)

lemma try_error:
  "handleVerify_try st otp (VerifyReturns (Some m) u ss) sr =
     (st, [VerifyOtp (email st) otp (verificationType (type st)), verify_error_alert m])"
  by (simp add: handleVerify_try_def)

lemma try_nobody:
  "\<not> u \<Longrightarrow> \<not> ss \<Longrightarrow> handleVerify_try st otp (VerifyReturns None u ss) sr =
     (st, [VerifyOtp (email st) otp (verificationType (type st)), no_session_created_alert])"
  by (simp add: handleVerify_try_def)

lemma try_session:
  "u \<or> ss \<Longrightarrow> handleVerify_try st otp (VerifyReturns None u ss) sr =
     (fst (confirm_session st sr),
      VerifyOtp (email st) otp (verificationType (type st)) # snd (confirm_session st sr))"
  by (auto simp add: handleVerify_try_def split: prod.splits)

lemma handleVerify_running:
  "\<not> verifying st \<Longrightarrow> isValidOTP otp \<Longrightarrow>
   handleVerify st otp vr sr =
     (handleVerify_finally (fst (handleVerify_try (handleVerify_begin st) otp vr sr)),
      snd (handleVerify_try (handleVerify_begin st) otp vr sr))"
  by (simp add: handleVerify_def split: prod.splits)

lemma confirm_session_shape:
  "filter is_verify_call (snd (confirm_session st sr)) = [] \<and>
   length (outcomes (snd (confirm_session st sr))) = 1 \<and>
   type (fst (confirm_session st sr)) = type st \<and>
   email (fst (confirm_session st sr)) = email st"
proof (cases sr)
  case (SessionData present)
  then show ?thesis
    by (cases present)
       (simp_all add: confirm_session_cases no_verify_call outcomes_Cons outcomes_Nil
          kind_of_calls kind_of_alerts clearOTPData_def)
qed (simp_all add: confirm_session_cases no_verify_call outcomes_Cons outcomes_Nil
       kind_of_calls kind_of_alerts)

text \<open>
  Whatever the service answers, the \<open>try\<close> block makes one verification call, the one
  for the pending flow, reports one outcome, and keeps the flow and the address.
\<close>

lemma handleVerify_try_shape:
  "filter is_verify_call (snd (handleVerify_try st otp vr sr))
     = [VerifyOtp (email st) otp (verificationType (type st))] \<and>
   length (outcomes (snd (handleVerify_try st otp vr sr))) = 1 \<and>
   type (fst (handleVerify_try st otp vr sr)) = type st \<and>
   email (fst (handleVerify_try st otp vr sr)) = email st"
proof (cases vr)
  case VerifyThrows
  then show ?thesis
    by (simp add: try_throws no_verify_call outcomes_Cons outcomes_Nil kind_of_calls
        kind_of_alerts)
next
  case (VerifyReturns err u ss)
  show ?thesis
  proof (cases err)
    case (Some m)
    with VerifyReturns show ?thesis
      by (simp add: try_error no_verify_call outcomes_Cons outcomes_Nil kind_of_calls
          kind_of_verify_error_alert)
  next
    case None
    show ?thesis
    proof (cases "u \<or> ss")
      case False
      with None VerifyReturns show ?thesis
        by (simp add: try_nobody no_verify_call outcomes_Cons outcomes_Nil
            kind_of_calls kind_of_alerts)
    next
      case True
      show ?thesis
        unfolding VerifyReturns None try_session [OF True]
        using confirm_session_shape [of st sr]
        by (simp add: no_verify_call outcomes_Cons kind_of_calls)
    qed
  qed
qed

lemma handleVerify_try_calls:
  "e \<in> set (snd (handleVerify_try st otp vr sr)) \<Longrightarrow> is_verify_call e \<Longrightarrow>
   e = VerifyOtp (email st) otp (verificationType (type st))"
proof -
  assume "e \<in> set (snd (handleVerify_try st otp vr sr))" "is_verify_call e"
  then have "e \<in> set (filter is_verify_call (snd (handleVerify_try st otp vr sr)))"
    by simp
  then show ?thesis
    by (simp only: handleVerify_try_shape) simp
qed

lemma handleVerify_frame:
  "type (fst (handleVerify st otp vr sr)) = type st"
  "email (fst (handleVerify st otp vr sr)) = email st"
proof -
  have "type (fst (handleVerify st otp vr sr)) = type st \<and>
        email (fst (handleVerify st otp vr sr)) = email st"
  proof (cases "\<not> verifying st \<and> isValidOTP otp")
    case True
    then show ?thesis
      by (simp add: handleVerify_running handleVerify_finally_def handleVerify_try_shape
          handleVerify_begin_def)
  next
    case False
    then show ?thesis
      by (auto simp: handleVerify_def)
  qed
  then show "type (fst (handleVerify st otp vr sr)) = type st"
    and "email (fst (handleVerify st otp vr sr)) = email st"
    by simp_all
qed

lemma handleVerify_calls:
  assumes "e \<in> set (snd (handleVerify st otp vr sr))" "is_verify_call e"
  shows "e = VerifyOtp (email st) otp (verificationType (type st))"
proof (cases "\<not> verifying st \<and> isValidOTP otp")
  case True
  with assms have "e \<in> set (snd (handleVerify_try (handleVerify_begin st) otp vr sr))"
    by (simp add: handleVerify_running)
  from handleVerify_try_calls [OF this assms(2)] show ?thesis
    by (simp add: handleVerify_begin_def)
next
  case False
  with assms show ?thesis
    by (auto simp: handleVerify_def no_verify_call split: if_splits)
qed

lemma verify_attempts_calls:
  "e \<in> set (snd (verify_attempts st as)) \<Longrightarrow> is_verify_call e \<Longrightarrow>
   \<exists>otp. e = VerifyOtp (email st) otp (verificationType (type st))"
proof (induction st as rule: verify_attempts.induct)
  case (1 st)
  then show ?case by simp
next
  case (2 st otp vr sr later)
  obtain st' effs where hv: "handleVerify st otp vr sr = (st', effs)"
    by (cases "handleVerify st otp vr sr")
  obtain st'' effs' where va: "verify_attempts st' later = (st'', effs')"
    by (cases "verify_attempts st' later")
  from hv have fr: "type st' = type st" "email st' = email st"
    using handleVerify_frame [of st otp vr sr] by simp_all
  from "2.prems"(1) hv va have "e \<in> set effs \<or> e \<in> set effs'"
    by simp
  then show ?case
  proof
    assume "e \<in> set effs"
    with hv have "e \<in> set (snd (handleVerify st otp vr sr))" by simp
    from handleVerify_calls [OF this "2.prems"(2)] show ?thesis by blast
  next
    assume "e \<in> set effs'"
    with va have "e \<in> set (snd (verify_attempts st' later))" by simp
    from "2.IH" [OF hv [symmetric] this "2.prems"(2)] fr show ?thesis by simp
  qed
qed

text \<open>
  Claim C2. In any series of verification attempts on a screen, whatever the service
  answers to each, every \<open>verifyOtp\<close> call carries \<open>signup\<close> when the pending flow is
  a registration and \<open>recovery\<close> when it is a password reset, never the other one; and
  an attempt with a well-formed code that is not suppressed does make that call first.
\<close>

theorem verify_uses_flow_discriminator:
  "(\<forall>e\<in>set (snd (verify_attempts st attempts)). \<forall>em tok d. e = VerifyOtp em tok d \<longrightarrow>
      d = (case type st of register \<Rightarrow> ''signup'' | reset \<Rightarrow> ''recovery'') \<and>
      d \<noteq> (case type st of register \<Rightarrow> ''recovery'' | reset \<Rightarrow> ''signup'')) \<and>
   (\<not> verifying st \<and> isValidOTP otp \<longrightarrow>
      (\<exists>rest. snd (handleVerify st otp vr sr) =
         VerifyOtp (email st) otp
           (case type st of register \<Rightarrow> ''signup'' | reset \<Rightarrow> ''recovery'') # rest))"
proof -
  have disc: "verificationType t = (case t of register \<Rightarrow> ''signup'' | reset \<Rightarrow> ''recovery'')"
    for t by (cases t) (simp_all add: verificationType_def)
  have "d = (case type st of register \<Rightarrow> ''signup'' | reset \<Rightarrow> ''recovery'') \<and>
        d \<noteq> (case type st of register \<Rightarrow> ''recovery'' | reset \<Rightarrow> ''signup'')"
    if "VerifyOtp em tok d \<in> set (snd (verify_attempts st attempts))" for em tok d
  proof -
    from verify_attempts_calls [OF that] have "d = verificationType (type st)"
      by (auto simp: is_verify_call_def)
    then show ?thesis
      by (cases "type st") (simp_all add: disc)
  qed
  moreover have "\<exists>rest. snd (handleVerify st otp vr sr) =
      VerifyOtp (email st) otp (case type st of register \<Rightarrow> ''signup'' | reset \<Rightarrow> ''recovery'') # rest"
    if "\<not> verifying st" "isValidOTP otp"
  proof -
    have "\<exists>rest. snd (handleVerify_try s otp vr sr)
        = VerifyOtp (email s) otp (verificationType (type s)) # rest" for s
      by (cases vr; cases "\<exists>m u ss. vr = VerifyReturns (Some m) u ss";
          cases "\<exists>u ss. vr = VerifyReturns None u ss \<and> (u \<or> ss)")
         (auto simp: try_throws try_error try_nobody try_session)
    from this [of "handleVerify_begin st"] that show ?thesis
      by (simp add: handleVerify_running handleVerify_begin_def disc)
  qed
  ultimately show ?thesis by blast
qed

theorem verify_uses_flow_discriminator_witness:
  "type idle_screen = register \<and> \<not> verifying idle_screen \<and> isValidOTP ''123456'' \<and>
   VerifyOtp ''a@b.com'' ''123456'' ''signup''
     \<in> set (snd (verify_attempts idle_screen
          [(''000000'', VerifyReturns (Some ''Token has expired'') False False, SessionError),
           (''123456'', VerifyReturns None True True, SessionData True)])) \<and>
   (\<exists>rest. snd (handleVerify idle_screen ''123456'' (VerifyReturns None True True)
                 (SessionData True))
      = VerifyOtp ''a@b.com'' ''123456'' ''signup'' # rest)"
proof -
  have v: "\<not> verifying idle_screen" "type idle_screen = register" "email idle_screen = ''a@b.com''"
    by (simp_all add: idle_screen_def)
  have ok: "isValidOTP ''123456''" "isValidOTP ''000000''"
    by (simp_all add: six_digits ascii_digit_def)
  have first: "handleVerify idle_screen ''000000''
      (VerifyReturns (Some ''Token has expired'') False False) SessionError
    = (idle_screen, [VerifyOtp ''a@b.com'' ''000000'' ''signup'',
         verify_error_alert ''Token has expired''])"
    by (simp add: handleVerify_running v ok try_error handleVerify_begin_def
        handleVerify_finally_def verificationType_def) (simp add: idle_screen_def)
  have mem: "VerifyOtp ''a@b.com'' ''123456'' ''signup''
     \<in> set (snd (verify_attempts idle_screen
          [(''000000'', VerifyReturns (Some ''Token has expired'') False False, SessionError),
           (''123456'', VerifyReturns None True True, SessionData True)]))"
    by (simp add: first handleVerify_running v ok try_session handleVerify_begin_def
        verificationType_def split: prod.splits)
  from verify_uses_flow_discriminator
    [of idle_screen _ "''123456''" "VerifyReturns None True True" "SessionData True"]
  have "\<exists>rest. snd (handleVerify idle_screen ''123456'' (VerifyReturns None True True)
                 (SessionData True))
      = VerifyOtp ''a@b.com'' ''123456'' ''signup'' # rest"
    using v ok by simp
  with v ok mem show ?thesis by simp
qed

subsection \<open>The pending verification is removed on success only\<close>

lemma confirm_session_pending:
  "Success \<notin> set (outcomes (snd (confirm_session s sr))) \<Longrightarrow>
   otpStore (fst (confirm_session s sr)) = otpStore s \<and>
   RemoveItem k \<notin> set (snd (confirm_session s sr))"
proof (cases sr)
  case (SessionData present)
  assume "Success \<notin> set (outcomes (snd (confirm_session s sr)))"
  with SessionData show ?thesis
    by (cases present)
       (simp_all add: confirm_session_cases outcomes_Cons outcomes_Nil kind_of_calls
          kind_of_alerts not_a_removal)
qed (simp_all add: confirm_session_cases not_a_removal)

lemma try_pending:
  assumes "Success \<notin> set (outcomes (snd (handleVerify_try s otp vr sr)))"
  shows "otpStore (fst (handleVerify_try s otp vr sr)) = otpStore s \<and>
         RemoveItem k \<notin> set (snd (handleVerify_try s otp vr sr))"
proof (cases vr)
  case VerifyThrows
  then show ?thesis by (simp add: try_throws not_a_removal)
next
  case (VerifyReturns err u ss)
  show ?thesis
  proof (cases err)
    case (Some m)
    with VerifyReturns show ?thesis by (simp add: try_error not_a_removal)
  next
    case None
    show ?thesis
    proof (cases "u \<or> ss")
      case False
      with None VerifyReturns show ?thesis by (simp add: try_nobody not_a_removal)
    next
      case True
      from assms have "Success \<notin> set (outcomes (snd (confirm_session s sr)))"
        unfolding VerifyReturns None try_session [OF True]
        by (simp add: outcomes_Cons kind_of_calls)
      from confirm_session_pending [OF this, of k] show ?thesis
        unfolding VerifyReturns None try_session [OF True] by simp
    qed
  qed
qed

lemma handleVerify_pending:
  assumes "Success \<notin> set (outcomes (snd (handleVerify st otp vr sr)))"
  shows "otpStore (fst (handleVerify st otp vr sr)) = otpStore st \<and>
         RemoveItem k \<notin> set (snd (handleVerify st otp vr sr))"
proof (cases "\<not> verifying st \<and> isValidOTP otp")
  case True
  with assms have "Success \<notin> set (outcomes (snd (handleVerify_try (handleVerify_begin st) otp vr sr)))"
    by (simp add: handleVerify_running)
  from try_pending [OF this, of k] True show ?thesis
    by (simp add: handleVerify_running handleVerify_finally_def handleVerify_begin_def)
next
  case False
  then show ?thesis
    by (auto simp: handleVerify_def not_a_removal)
qed

subsection \<open>Errors returned by the verification call\<close>

lemma handleVerify_error:
  assumes "\<not> verifying st" "isValidOTP otp"
  shows "handleVerify st otp (VerifyReturns (Some m) u ss) sr =
     (st\<lparr>verifying := False, loading := False\<rparr>,
      [VerifyOtp (email st) otp (verificationType (type st)), verify_error_alert m])"
  using assms
  by (simp add: handleVerify_running try_error handleVerify_begin_def handleVerify_finally_def)

text \<open>
  Claim C8. An attempt with the code \<open>000000\<close> to which the service answers the error
  \<open>Token has expired\<close> ends in the outcome \<open>ExpiredCode\<close>, for a registration as for
  any pending flow; more generally, an error text that contains \<open>expired\<close> in any
  capitalisation is classified so, whether or not it contains \<open>token\<close> as well. On
  every error the service returns, and on every attempt that does not end in
  \<open>Success\<close>, the stored pending verification is left as it was and no removal is
  issued.
\<close>

theorem expired_takes_precedence:
  "(\<not> verifying st \<longrightarrow>
      outcomes (snd (handleVerify st ''000000''
         (VerifyReturns (Some ''Token has expired'') u ss) sr)) = [ExpiredCode] \<and>
      otpStore (fst (handleVerify st ''000000''
         (VerifyReturns (Some ''Token has expired'') u ss) sr)) = otpStore st) \<and>
   (\<not> verifying st \<and> isValidOTP otp \<and> str_includes (toLowerCase m) ''expired'' \<longrightarrow>
      outcomes (snd (handleVerify st otp (VerifyReturns (Some m) u ss) sr)) = [ExpiredCode]) \<and>
   (\<not> verifying st \<and> isValidOTP otp \<longrightarrow>
      otpStore (fst (handleVerify st otp (VerifyReturns (Some m) u ss) sr)) = otpStore st \<and>
      RemoveItem OTP_STORAGE_KEY
        \<notin> set (snd (handleVerify st otp (VerifyReturns (Some m) u ss) sr))) \<and>
   (Success \<notin> set (outcomes (snd (handleVerify st otp vr sr))) \<longrightarrow>
      otpStore (fst (handleVerify st otp vr sr)) = otpStore st \<and>
      RemoveItem OTP_STORAGE_KEY \<notin> set (snd (handleVerify st otp vr sr)))"
proof -
  have ok: "isValidOTP ''000000''"
    by (simp add: six_digits ascii_digit_def)
  have "outcomes (snd (handleVerify st ''000000''
         (VerifyReturns (Some ''Token has expired'') u ss) sr)) = [ExpiredCode] \<and>
      otpStore (fst (handleVerify st ''000000''
         (VerifyReturns (Some ''Token has expired'') u ss) sr)) = otpStore st"
    if "\<not> verifying st"
    by (simp add: handleVerify_error [OF that ok] outcomes_Cons outcomes_Nil kind_of_calls
        kind_of_verify_error_alert lower_token_has_expired)
  moreover have
    "outcomes (snd (handleVerify st otp (VerifyReturns (Some m) u ss) sr)) = [ExpiredCode]"
    if "\<not> verifying st" "isValidOTP otp" "str_includes (toLowerCase m) ''expired''"
    using that(3)
    by (simp add: handleVerify_error [OF that(1,2)] outcomes_Cons outcomes_Nil kind_of_calls
        kind_of_verify_error_alert)
  moreover have
    "otpStore (fst (handleVerify st otp (VerifyReturns (Some m) u ss) sr)) = otpStore st \<and>
     RemoveItem OTP_STORAGE_KEY
        \<notin> set (snd (handleVerify st otp (VerifyReturns (Some m) u ss) sr))"
    if "\<not> verifying st" "isValidOTP otp"
    by (simp add: handleVerify_error [OF that] not_a_removal)
  moreover have
    "otpStore (fst (handleVerify st otp vr sr)) = otpStore st \<and>
     RemoveItem OTP_STORAGE_KEY \<notin> set (snd (handleVerify st otp vr sr))"
    if "Success \<notin> set (outcomes (snd (handleVerify st otp vr sr)))"
    using that by (rule handleVerify_pending)
  ultimately show ?thesis by blast
qed

theorem expired_takes_precedence_witness:
  "\<not> verifying idle_screen \<and> type idle_screen = register \<and>
   outcomes (snd (handleVerify idle_screen ''000000''
      (VerifyReturns (Some ''Token has expired'') False False) SessionError)) = [ExpiredCode] \<and>
   otpStore (fst (handleVerify idle_screen ''000000''
      (VerifyReturns (Some ''Token has expired'') False False) SessionError))
     = Some \<lparr>otp_email = ''a@b.com'', otp_type = register\<rparr>"
proof -
  have v: "\<not> verifying idle_screen" "type idle_screen = register"
    "otpStore idle_screen = Some \<lparr>otp_email = ''a@b.com'', otp_type = register\<rparr>"
    by (simp_all add: idle_screen_def)
  note first = mp [OF conjunct1 [OF expired_takes_precedence
      [of idle_screen False False SessionError]] v(1)]
  from first v show ?thesis by simp
qed

subsection \<open>Confirming the session\<close>








subsection \<open>One verification at a time\<close>

text \<open>
  What the guard does achieve: a trigger whose handler reads the flag as set returns at
  once, with no effect and no change of state, and the first trigger sets the flag before
  it waits for the service. So a second trigger that goes through the handler of a later
  render, as the auto-submit repeated by the re-render does, is suppressed.
\<close>

lemma verify_guard:
  "(verifying st \<longrightarrow> handleVerify st otp vr sr = (st, [])) \<and>
   verifying (handleVerify_begin st) \<and>
   handleVerify (handleVerify_begin st) otp vr sr = (handleVerify_begin st, [])"
  by (simp add: handleVerify_def handleVerify_begin_def)

lemma one_trigger_one_call:
  assumes "\<not> verifying st" "isValidOTP otp"
  shows "filter is_verify_call (snd (handleVerify st otp vr sr))
           = [VerifyOtp (email st) otp (verificationType (type st))] \<and>
         length (outcomes (snd (handleVerify st otp vr sr))) = 1"
  using assms
  by (simp add: handleVerify_running handleVerify_try_shape handleVerify_begin_def)


subsection \<open>Resending a code\<close>

lemma kind_of_resend_alerts:
  "kind_of rate_limited_alert = Some RateLimited"
  "kind_of user_not_found_alert = Some UserNotFound"
  "kind_of unexpected_resend_alert = Some NetworkOrUnknown"
  "kind_of (Alert ''Resend Failed'' m) = Some NetworkOrUnknown"
  "kind_of (code_sent_alert a) = None"
  "kind_of (resend_call st) = None"
  by (simp_all add: rate_limited_alert_def user_not_found_alert_def unexpected_resend_alert_def
      code_sent_alert_def resend_call_def kind_of_def kind_of_title_def)

lemma handleResend_failed:
  assumes "\<not> resendDisabled st"
    and "\<not> str_includes (toLowerCase m) ''rate limit''"
    and "\<not> str_includes (toLowerCase m) ''too many requests''"
    and "\<not> str_includes (toLowerCase m) ''user not found''"
  shows "handleResend st (ResendReturns (Some m)) =
           (st\<lparr>loading := False\<rparr>, [resend_call st, Alert ''Resend Failed'' m])"
  using assms by (simp add: handleResend_def)

lemma lower_network_failure:
  "toLowerCase ''Network request failed'' = ''network request failed''"
  by code_simp

text \<open>
  Claim C1, as the specification states it, fails: \<open>handleResend\<close> has no access to the
  limiter. Four presses of the resend control, each answered by the service with the error
  \<open>Network request failed\<close>, all reach the service: the fourth press makes the remote
  call like the first three, reports no rate limit, and leaves the cooldown timer at 0
  and the control enabled, although the limiter, asked four times in the same span,
  refuses the fourth request with a wait of 300 seconds.
\<close>

theorem fourth_resend_reaches_service:
  "resend_presses idle_screen
     [ResendReturns (Some ''Network request failed''),
      ResendReturns (Some ''Network request failed''),
      ResendReturns (Some ''Network request failed''),
      ResendReturns (Some ''Network request failed'')] ! 3
     = (idle_screen,
        [Resend ''signup'' ''a@b.com'', Alert ''Resend Failed'' ''Network request failed'']) \<and>
   resendTimer idle_screen = 0 \<and> \<not> resendDisabled idle_screen \<and>
   answer (checkRateLimit ''otp_resend'' 3000
      (checks ''otp_resend'' [0, 1000, 2000] empty_store)) = deny 300"
proof -
  have idle: "\<not> resendDisabled idle_screen" "idle_screen\<lparr>loading := False\<rparr> = idle_screen"
    "resendTimer idle_screen = 0"
    "resend_call idle_screen = Resend ''signup'' ''a@b.com''"
    by (simp_all add: idle_screen_def resend_call_def)
  have press: "handleResend idle_screen (ResendReturns (Some ''Network request failed''))
      = (idle_screen,
         [Resend ''signup'' ''a@b.com'', Alert ''Resend Failed'' ''Network request failed''])"
    by (simp add: handleResend_failed idle lower_network_failure)
  have guard: "answer (checkRateLimit ''otp_resend'' 3000
      (checks ''otp_resend'' [0, 1000, 2000] empty_store)) = deny 300"
    by (simp add: empty_store_def check_fresh check_json store_after_def answer_def
        currently_blocked_def)
  have "resend_presses idle_screen
     [ResendReturns (Some ''Network request failed''),
      ResendReturns (Some ''Network request failed''),
      ResendReturns (Some ''Network request failed''),
      ResendReturns (Some ''Network request failed'')] ! 3
     = (idle_screen,
        [Resend ''signup'' ''a@b.com'', Alert ''Resend Failed'' ''Network request failed''])"
    by (simp add: press eval_nat_numeral)
  with idle guard show ?thesis by simp
qed

text \<open>
  Claim C1, amended. \<open>handleResend\<close> does not consult the limiter. While the resend
  control is disabled it returns at once, contacting nothing and changing nothing; in
  every other call it contacts the service first, with the resend of the signup code for
  a registration and the restart of the recovery for a password reset. A rate limit is
  reported exactly when the error text of the service contains \<open>rate limit\<close> or
  \<open>too many requests\<close>, and then the cooldown timer is armed to 300 seconds and the
  control disabled; after a resend without error the timer is armed to 30 seconds.
\<close>

theorem resend_rate_limit_is_remote:
  "(resendDisabled st \<longrightarrow> handleResend st rr = (st, [])) \<and>
   (\<not> resendDisabled st \<longrightarrow>
      (\<exists>dialog. snd (handleResend st rr) =
         [case type st of register \<Rightarrow> Resend ''signup'' (email st)
                        | reset \<Rightarrow> ResetPasswordForEmail (email st), dialog]) \<and>
      (RateLimited \<in> set (outcomes (snd (handleResend st rr))) \<longleftrightarrow>
         (\<exists>m. rr = ResendReturns (Some m) \<and>
              (str_includes (toLowerCase m) ''rate limit''
               \<or> str_includes (toLowerCase m) ''too many requests''))) \<and>
      (RateLimited \<in> set (outcomes (snd (handleResend st rr))) \<longrightarrow>
         resendTimer (fst (handleResend st rr)) = 300 \<and>
         resendDisabled (fst (handleResend st rr))) \<and>
      (rr = ResendReturns None \<longrightarrow>
         resendTimer (fst (handleResend st rr)) = 30 \<and>
         resendDisabled (fst (handleResend st rr))))"
proof -
  have call: "resend_call st = (case type st of register \<Rightarrow> Resend ''signup'' (email st)
                                | reset \<Rightarrow> ResetPasswordForEmail (email st))"
    by (cases "type st") (simp_all add: resend_call_def)
  have off: "handleResend st rr = (st, [])" if "resendDisabled st"
    using that by (simp add: handleResend_def)
  have on: "(\<exists>dialog. snd (handleResend st rr) = [resend_call st, dialog]) \<and>
      (RateLimited \<in> set (outcomes (snd (handleResend st rr))) \<longleftrightarrow>
         (\<exists>m. rr = ResendReturns (Some m) \<and>
              (str_includes (toLowerCase m) ''rate limit''
               \<or> str_includes (toLowerCase m) ''too many requests''))) \<and>
      (RateLimited \<in> set (outcomes (snd (handleResend st rr))) \<longrightarrow>
         resendTimer (fst (handleResend st rr)) = 300 \<and>
         resendDisabled (fst (handleResend st rr))) \<and>
      (rr = ResendReturns None \<longrightarrow>
         resendTimer (fst (handleResend st rr)) = 30 \<and>
         resendDisabled (fst (handleResend st rr)))"
    if "\<not> resendDisabled st"
  proof (cases rr)
    case ResendThrows
    with that show ?thesis
      by (simp add: handleResend_def outcomes_Cons outcomes_Nil kind_of_resend_alerts)
  next
    case (ResendReturns err)
    show ?thesis
    proof (cases err)
      case None
      with that ResendReturns show ?thesis
        by (simp add: handleResend_def outcomes_Cons outcomes_Nil kind_of_resend_alerts)
    next
      case (Some m)
      with that ResendReturns show ?thesis
        by (simp add: handleResend_def outcomes_Cons outcomes_Nil kind_of_resend_alerts)
    qed
  qed
  from off on show ?thesis
    unfolding call by blast
qed

theorem resend_rate_limit_is_remote_witness:
  "\<not> resendDisabled idle_screen \<and>
   snd (handleResend idle_screen (ResendReturns (Some ''Email rate limit exceeded'')))
     = [Resend ''signup'' ''a@b.com'', rate_limited_alert] \<and>
   resendTimer (fst (handleResend idle_screen
      (ResendReturns (Some ''Email rate limit exceeded'')))) = 300 \<and>
   resendDisabled (fst (handleResend idle_screen
      (ResendReturns (Some ''Email rate limit exceeded''))))"
proof -
  have idle: "\<not> resendDisabled idle_screen" "type idle_screen = register"
    "email idle_screen = ''a@b.com''"
    by (simp_all add: idle_screen_def)
  have low: "toLowerCase ''Email rate limit exceeded'' = ''email rate limit exceeded''"
    by code_simp
  have hit: "str_includes ''email rate limit exceeded'' ''rate limit''"
    by simp
  have effs: "snd (handleResend idle_screen (ResendReturns (Some ''Email rate limit exceeded'')))
     = [Resend ''signup'' ''a@b.com'', rate_limited_alert]"
    by (simp add: handleResend_def idle low resend_call_def)
  then have lim: "RateLimited \<in> set (outcomes (snd (handleResend idle_screen
      (ResendReturns (Some ''Email rate limit exceeded'')))))"
    by (simp add: outcomes_Cons outcomes_Nil kind_of_calls kind_of_resend_alerts)
  note all = mp [OF conjunct2 [OF resend_rate_limit_is_remote
      [of idle_screen "ResendReturns (Some ''Email rate limit exceeded'')"]] idle(1)]
  note armed = mp [OF conjunct1 [OF conjunct2 [OF conjunct2 [OF all]]] lim]
  from idle(1) effs armed show ?thesis
    by simp
qed

end
